theory Spec2Isabelle
  imports Complex_Main "HOL-Library.Word"
begin

unbundle bit_operations_syntax

section \<open>The speech stream player\<close>

text \<open>
  A shallow embedding of the class \<open>SpeechPlayer\<close>. The player has two pipelines: the
  media-source pipeline (\<open>useAudioContext = false\<close>, the spec's StreamingBuffer mode) and
  the audio-context pipeline (\<open>useAudioContext = true\<close>, the spec's ManualDecode mode).

  Conventions of the embedding:
  \<^item> a \<open>Uint8Array\<close> is a list of 8-bit words, a value; \<open>slice\<close> is \<open>take\<close>/\<open>drop\<close>;
  \<^item> JavaScript numbers that hold times (seconds) are modelled as \<open>real\<close>;
  \<^item> an optional callback of \<open>Options\<close> is the flag "supplied", and every call made to a
    callback is appended to the log \<open>calls\<close> of the player;
  \<^item> a \<open>throw\<close> is the left injection of a sum; a returned promise is the value
    \<open>Resolved\<close>, \<open>Rejected\<close> or \<open>Pending\<close> it has when the call returns;
  \<^item> an asynchronous method is split at its suspension points: the part that runs
    inside the call, and one function per continuation or event listener;
  \<^item> the host objects (audio element, media source, source buffer, audio context,
    timers) are records holding the attributes the player reads and a log of the calls
    it makes; their methods are assumed not to throw;
  \<^item> \<open>decodeAudioData\<close> detaches the \<open>ArrayBuffer\<close> it is given, as the Web Audio
    specification prescribes: a typed array on that buffer has length 0 afterwards, and
    \<open>set\<close> with it as the source throws a \<open>TypeError\<close>.
\<close>

subsection \<open>Data\<close>

type_synonym byte = "8 word"
type_synonym Uint8Array = "byte list"

datatype callback = OnPlaying | OnPause | OnChunkEnd

datatype error = ReferenceError | Error | TypeError

datatype 'a promise = Resolved 'a | Rejected error | Pending

record HTMLAudioElement =
  audio_paused :: bool

record Options =
  onPlaying :: bool
  onPause :: bool
  onChunkEnd :: bool
  mimeType :: "string option"
  audio :: "HTMLAudioElement option"

datatype ReadyState = SourceClosed | SourceOpen | SourceEnded

record MediaSource =
  readyState :: ReadyState

record SourceBuffer =
  updating :: bool
  appended :: "Uint8Array list"

datatype AudioContextState = Suspended | Running | Closed

record AudioBuffer =
  duration :: real

record AudioContext =
  state :: AudioContextState
  currentTime :: real
  decodeCalls :: "Uint8Array list"
  decodePending :: "Uint8Array list"
  started :: "(real \<times> AudioBuffer) list"
  ended :: nat

datatype TimerTask = EndOfStreamCheck | PauseFallback

text \<open>
  The fields of the class, in the order of the source; \<open>audioEl\<close> is the backing field
  \<open>_audio\<close>. The fields \<open>mediaSource\<close>, \<open>sourceBuffer\<close> and \<open>audioContext\<close> are
  undefined in the source until \<open>init\<close> or \<open>sourceOpenHandle\<close> assigns them; here they
  hold a placeholder until then, and the functions below read them where the source
  does, after the assignment. \<open>initResolve\<close> is the flag "not null". The last four
  fields are not fields of the class. Every run of the body of \<open>sourceOpenHandle\<close> has a
  local variable \<open>timer\<close> of its own, shared by the listeners that run adds, and no
  listener is ever removed: \<open>timer\<close> lists these variables, oldest run first.
  \<open>timeouts\<close> are the host's pending \<open>setTimeout\<close> entries (id, delay in ms, task),
  \<open>timerCount\<close> the number of timers created so far (ids are positive), and \<open>calls\<close>
  the log of callback calls. In the audio context, \<open>decodeCalls\<close> logs every byte range
  passed to \<open>decodeAudioData\<close>, \<open>decodePending\<close> holds the ranges whose promise is not
  settled, \<open>started\<close> logs every source started (start time, buffer) and \<open>ended\<close>
  counts the started sources that have ended. The method
  \<open>destroy\<close> is not part of the embedding: a destroyed player is one whose flag
  \<open>destroyed\<close> is set.
\<close>

record SpeechPlayer =
  audioEl :: "HTMLAudioElement option"
  mediaSource :: MediaSource
  sourceBuffer :: SourceBuffer
  initResolve :: bool
  sourceBufferCache :: "Uint8Array list"
  destroyed :: bool
  mediaSourceOpened :: bool
  options :: Options
  audioContext :: AudioContext
  nextStartTime :: real
  pendingBuffer :: Uint8Array
  useAudioContext :: bool
  timer :: "nat list"
  timeouts :: "(nat \<times> nat \<times> TimerTask) list"
  timerCount :: nat
  calls :: "callback list"

text \<open>
  What the host offers \<open>init\<close>: whether \<open>MediaSource\<close> is defined, its
  \<open>isTypeSupported\<close>, whether an \<open>AudioContext\<close> constructor exists, and the state in
  which a new audio context starts.
\<close>

record Host =
  hasMediaSource :: bool
  isTypeSupported :: "string \<Rightarrow> bool"
  hasAudioContext :: bool
  newContextState :: AudioContextState

subsection \<open>Host operations\<close>

definition fire :: "callback \<Rightarrow> SpeechPlayer \<Rightarrow> SpeechPlayer" where
  "fire c p = p\<lparr>calls := calls p @ [c]\<rparr>"

definition new_Audio :: HTMLAudioElement where
  "new_Audio = \<lparr>audio_paused = True\<rparr>"

definition new_MediaSource :: MediaSource where
  "new_MediaSource = \<lparr>readyState = SourceClosed\<rparr>"

definition new_AudioContext :: "AudioContextState \<Rightarrow> AudioContext" where
  "new_AudioContext st =
     \<lparr>state = st, currentTime = 0, decodeCalls = [], decodePending = [], started = [],
      ended = 0\<rparr>"

definition addSourceBuffer :: SourceBuffer where
  "addSourceBuffer = \<lparr>updating = False, appended = []\<rparr>"

definition appendBuffer :: "Uint8Array \<Rightarrow> SourceBuffer \<Rightarrow> SourceBuffer" where
  "appendBuffer chunk sb = sb\<lparr>updating := True, appended := appended sb @ [chunk]\<rparr>"

definition decodeAudioData :: "Uint8Array \<Rightarrow> AudioContext \<Rightarrow> AudioContext" where
  "decodeAudioData d ctx =
     ctx\<lparr>decodeCalls := decodeCalls ctx @ [d], decodePending := decodePending ctx @ [d]\<rparr>"

definition setTimeout :: "TimerTask \<Rightarrow> nat \<Rightarrow> SpeechPlayer \<Rightarrow> nat \<times> SpeechPlayer" where
  "setTimeout task ms p =
     (let ident = Suc (timerCount p)
      in (ident, p\<lparr>timeouts := timeouts p @ [(ident, ms, task)], timerCount := ident\<rparr>))"

definition clearTimeout :: "nat \<Rightarrow> SpeechPlayer \<Rightarrow> SpeechPlayer" where
  "clearTimeout ident p = p\<lparr>timeouts := filter (\<lambda>t. fst t \<noteq> ident) (timeouts p)\<rparr>"

subsection \<open>Construction and initialisation\<close>

definition constructor :: "Options option \<Rightarrow> SpeechPlayer" where
  "constructor opts =
     \<lparr>audioEl = (case opts of
          None \<Rightarrow> None
        | Some opt \<Rightarrow> (case audio opt of None \<Rightarrow> Some new_Audio | Some a \<Rightarrow> Some a)),
      mediaSource = new_MediaSource,
      sourceBuffer = addSourceBuffer,
      initResolve = False,
      sourceBufferCache = [],
      destroyed = False,
      mediaSourceOpened = False,
      options = (case opts of
          None \<Rightarrow> \<lparr>onPlaying = False, onPause = False, onChunkEnd = False,
                    mimeType = None, audio = None\<rparr>
        | Some opt \<Rightarrow> opt),
      audioContext = new_AudioContext Closed,
      nextStartTime = 0,
      pendingBuffer = [],
      useAudioContext = False,
      timer = [],
      timeouts = [],
      timerCount = 0,
      calls = []\<rparr>"

text \<open>
  \<open>init\<close>, up to the point where it returns its promise. In the media-source branch the
  promise stays pending until the \<open>sourceopen\<close> event; without an audio element the
  assignment to \<open>this.audio.src\<close> throws inside the promise executor, which rejects it.
  In the other branch \<open>new AudioContext()\<close> throws on a host without the constructor,
  and the \<open>async\<close> method returns a rejected promise.
\<close>

definition init :: "Host \<Rightarrow> SpeechPlayer \<Rightarrow> unit promise \<times> SpeechPlayer" where
  "init host p =
     (let p0 = p\<lparr>destroyed := False\<rparr>;
          mime = (case mimeType (options p0) of None \<Rightarrow> ''audio/mpeg'' | Some m \<Rightarrow> m)
      in if hasMediaSource host \<and> isTypeSupported host mime
         then (let p1 = p0\<lparr>useAudioContext := False\<rparr>;
                   p2 = p1\<lparr>mediaSource := new_MediaSource\<rparr>
               in case audioEl p2 of
                    None \<Rightarrow> (Rejected TypeError, p2)
                  | Some a \<Rightarrow> (Pending, p2\<lparr>initResolve := True\<rparr>))
         else (let p1 = p0\<lparr>useAudioContext := True\<rparr>
               in if \<not> hasAudioContext host then (Rejected TypeError, p1)
                  else (Resolved (),
                        p1\<lparr>audioContext := new_AudioContext (newContextState host),
                           nextStartTime := 0,
                           pendingBuffer := []\<rparr>)))"

text \<open>
  The \<open>sourceopen\<close> listener. While \<open>initResolve\<close> is set it resolves the promise of
  \<open>init\<close>, creates the source buffer and adds the listeners of this run, with a new
  variable \<open>timer = 0\<close>; this happens once after every \<open>init\<close>.
\<close>

definition sourceOpenHandle :: "SpeechPlayer \<Rightarrow> SpeechPlayer" where
  "sourceOpenHandle p =
     (if initResolve p
      then (let p1 = p\<lparr>initResolve := False\<rparr>
            in case audioEl p1 of
                 None \<Rightarrow> p1
               | Some a \<Rightarrow> p1\<lparr>sourceBuffer := addSourceBuffer, timer := timer p1 @ [0],
                              mediaSourceOpened := True\<rparr>)
      else p)"

subsection \<open>The audio-context pipeline\<close>

text \<open>The test of the scan at index \<open>i\<close>: an MP3 sync word starts there.\<close>

definition isSync :: "Uint8Array \<Rightarrow> nat \<Rightarrow> bool" where
  "isSync b i = (b ! i = 0xFF \<and> (b ! (i + 1)) AND 0xE0 = 0xE0)"

text \<open>The \<open>for\<close> loop of the scan from index \<open>i\<close> downwards; \<open>cutIndex\<close> starts as \<open>-1\<close>.\<close>

function scanFrom :: "Uint8Array \<Rightarrow> int \<Rightarrow> int" where
  "scanFrom b i =
     (if i \<ge> 0 then (if isSync b (nat i) then i else scanFrom b (i - 1)) else - 1)"
  by pat_completeness auto
termination
  by (relation "measure (\<lambda>(b, i). nat (i + 1))") auto

declare scanFrom.simps [simp del]

definition cutIndex :: "Uint8Array \<Rightarrow> int" where
  "cutIndex b = scanFrom b (int (length b) - 2)"

text \<open>
  \<open>processAudioContextQueue\<close> up to its \<open>await\<close>: the scan, the split, and the call of
  \<open>decodeAudioData\<close> on the front part.
\<close>

definition processAudioContextQueue :: "SpeechPlayer \<Rightarrow> SpeechPlayer" where
  "processAudioContextQueue p =
     (if length (pendingBuffer p) = 0 then p
      else if cutIndex (pendingBuffer p) > 0
      then (let dataToDecode = take (nat (cutIndex (pendingBuffer p))) (pendingBuffer p);
                remaining = drop (nat (cutIndex (pendingBuffer p))) (pendingBuffer p);
                p1 = p\<lparr>pendingBuffer := remaining\<rparr>
            in p1\<lparr>audioContext := decodeAudioData dataToDecode (audioContext p1)\<rparr>)
      else p)"

definition schedulePlayback :: "AudioBuffer \<Rightarrow> SpeechPlayer \<Rightarrow> SpeechPlayer" where
  "schedulePlayback buffer p =
     (let start = nextStartTime p;
          start = (if start < currentTime (audioContext p)
                   then currentTime (audioContext p) else start);
          ctx = (audioContext p)\<lparr>started := started (audioContext p) @ [(start, buffer)]\<rparr>
      in p\<lparr>audioContext := ctx, nextStartTime := start + duration buffer\<rparr>)"

text \<open>The \<open>onended\<close> listener that \<open>schedulePlayback\<close> puts on every source.\<close>

definition source_onended :: "SpeechPlayer \<Rightarrow> SpeechPlayer" where
  "source_onended p =
     (if length (pendingBuffer p) = 0
         \<and> \<bar>nextStartTime p - currentTime (audioContext p)\<bar> < 0.1
      then (if onChunkEnd (options p) then fire OnChunkEnd p else p)
      else p)"

text \<open>The rest of the \<open>try\<close> block, run when the decode promise is fulfilled.\<close>

definition decodeFulfilled :: "AudioBuffer \<Rightarrow> SpeechPlayer \<Rightarrow> SpeechPlayer" where
  "decodeFulfilled audioBuffer p =
     (let p1 = schedulePlayback audioBuffer p
      in if nextStartTime p1 = 0 \<and> onPlaying (options p1) then fire OnPlaying p1 else p1)"

text \<open>
  The \<open>catch\<close> block, run when the decode promise is rejected. \<open>dataToDecode\<close> is the
  typed array of the closure, \<open>None\<close> when its buffer is detached: then its length reads
  0, \<open>recovered\<close> is allocated with the length of the pending buffer, and
  \<open>recovered.set(dataToDecode)\<close> throws. The exception leaves the \<open>async\<close> method, whose
  promise is rejected, before \<open>pendingBuffer\<close> is assigned.
\<close>

definition decodeRejected :: "Uint8Array option \<Rightarrow> SpeechPlayer \<Rightarrow> error + SpeechPlayer" where
  "decodeRejected dataToDecode p =
     (case dataToDecode of
        None \<Rightarrow> Inl TypeError
      | Some d \<Rightarrow> (let recovered = d @ pendingBuffer p in Inr (p\<lparr>pendingBuffer := recovered\<rparr>)))"

subsection \<open>Feeding\<close>

definition feed :: "Uint8Array \<Rightarrow> SpeechPlayer \<Rightarrow> error + SpeechPlayer" where
  "feed chunk p =
     (if destroyed p then Inl ReferenceError
      else if useAudioContext p
      then (let newBuffer = pendingBuffer p @ chunk
            in Inr (processAudioContextQueue (p\<lparr>pendingBuffer := newBuffer\<rparr>)))
      else if \<not> mediaSourceOpened p then Inl Error
      else (let p1 = p\<lparr>sourceBufferCache := sourceBufferCache p @ [chunk]\<rparr>
            in if \<not> updating (sourceBuffer p1)
               then Inr (p1\<lparr>sourceBuffer :=
                               appendBuffer (hd (sourceBufferCache p1)) (sourceBuffer p1),
                             sourceBufferCache := tl (sourceBufferCache p1)\<rparr>)
               else Inr p1))"

subsection \<open>The listeners of the media-source pipeline\<close>

text \<open>
  The \<open>updateend\<close> listener that the \<open>k\<close>-th run of the body of \<open>sourceOpenHandle\<close>
  put on the source buffer it created.
\<close>

definition sourceBuffer_updateend :: "nat \<Rightarrow> SpeechPlayer \<Rightarrow> SpeechPlayer" where
  "sourceBuffer_updateend k p =
     (let p1 = (if timer p ! k \<noteq> 0 then clearTimeout (timer p ! k) p else p)
      in case audioEl p1 of
           None \<Rightarrow> p1
         | Some a \<Rightarrow>
             (let p2 = (if audio_paused a then p1\<lparr>audioEl := Some (a\<lparr>audio_paused := False\<rparr>)\<rparr>
                        else p1)
              in if \<not> updating (sourceBuffer p2) \<and> length (sourceBufferCache p2) \<noteq> 0
                 then p2\<lparr>sourceBuffer :=
                            appendBuffer (hd (sourceBufferCache p2)) (sourceBuffer p2),
                          sourceBufferCache := tl (sourceBufferCache p2)\<rparr>
                 else p2))"

text \<open>
  The \<open>waiting\<close> listener that the \<open>k\<close>-th run of the body of \<open>sourceOpenHandle\<close> put
  on the audio element; it assigns the variable \<open>timer\<close> of that run.
\<close>

definition audio_waiting :: "nat \<Rightarrow> SpeechPlayer \<Rightarrow> SpeechPlayer" where
  "audio_waiting k p =
     (let (ident, p1) = setTimeout EndOfStreamCheck 500 p
      in p1\<lparr>timer := (timer p1)[k := ident]\<rparr>)"

text \<open>The function the \<open>waiting\<close> listener hands to \<open>setTimeout\<close>.\<close>

definition waiting_timeout :: "SpeechPlayer \<Rightarrow> SpeechPlayer" where
  "waiting_timeout p =
     (if \<not> updating (sourceBuffer p)
         \<and> readyState (mediaSource p) = SourceOpen
         \<and> length (sourceBufferCache p) = 0
      then (let p1 = p\<lparr>mediaSource := (mediaSource p)\<lparr>readyState := SourceEnded\<rparr>\<rparr>
            in if onChunkEnd (options p1) then fire OnChunkEnd p1 else p1)
      else p)"

text \<open>
  The host runs a pending timer: the entry leaves the pending list and its task runs.
  A timer that is not pending (never set, already run, or cleared) does nothing. The
  fallback timer of \<open>pause\<close> only settles the promise of that call.
\<close>

definition timeout_fires :: "nat \<Rightarrow> SpeechPlayer \<Rightarrow> SpeechPlayer" where
  "timeout_fires ident p =
     (case find (\<lambda>t. fst t = ident) (timeouts p) of
        None \<Rightarrow> p
      | Some (i, ms, task) \<Rightarrow>
          (let p1 = clearTimeout ident p
           in case task of EndOfStreamCheck \<Rightarrow> waiting_timeout p1 | PauseFallback \<Rightarrow> p1))"

subsection \<open>Playback control\<close>

definition paused :: "SpeechPlayer \<Rightarrow> bool" where
  "paused p =
     (if useAudioContext p
      then state (audioContext p) = Suspended \<or> state (audioContext p) = Closed
      else (case audioEl p of None \<Rightarrow> False | Some a \<Rightarrow> audio_paused a))"

definition playing :: "SpeechPlayer \<Rightarrow> bool" where
  "playing p = (\<not> paused p)"

text \<open>
  \<open>play\<close> and \<open>pause\<close>, up to the point where the promise executor returns. Where the
  promise waits for the host (\<open>resume\<close>, \<open>suspend\<close>, the \<open>playing\<close> or \<open>pause\<close> event) it
  is \<open>Pending\<close>; \<open>audio.play()\<close> and \<open>audio.pause()\<close> flip the element's \<open>paused\<close>
  attribute at once.
\<close>

definition play :: "SpeechPlayer \<Rightarrow> bool promise \<times> SpeechPlayer" where
  "play p =
     (if useAudioContext p
      then (if state (audioContext p) = Suspended then (Pending, p) else (Resolved True, p))
      else if paused p
      then (case audioEl p of
              None \<Rightarrow> (Rejected TypeError, p)
            | Some a \<Rightarrow> (Pending, p\<lparr>audioEl := Some (a\<lparr>audio_paused := False\<rparr>)\<rparr>))
      else (Resolved False, p))"

definition pause :: "SpeechPlayer \<Rightarrow> bool promise \<times> SpeechPlayer" where
  "pause p =
     (if useAudioContext p
      then (if state (audioContext p) = Running then (Pending, p) else (Resolved False, p))
      else if playing p
      then (case audioEl p of
              None \<Rightarrow> (Rejected TypeError, p)
            | Some a \<Rightarrow>
                (let p1 = p\<lparr>audioEl := Some (a\<lparr>audio_paused := True\<rparr>)\<rparr>
                 in (Pending, snd (setTimeout PauseFallback 0 p1))))
      else (Resolved False, p))"

subsection \<open>Runs of the audio-context pipeline\<close>

text \<open>
  What can happen to a player in the audio-context pipeline: a chunk is fed, the
  \<open>k\<close>-th pending decode is fulfilled with a buffer or rejected, the clock of the audio
  context reads a new value, a started source that has not ended yet ends. A \<open>feed\<close>
  that throws leaves the player as it was. When a decode is rejected, the typed array
  \<open>dataToDecode\<close> of its closure is detached, since its buffer went to
  \<open>decodeAudioData\<close>; an exception in the \<open>catch\<close> block rejects the promise of the
  method, which nobody awaits.
\<close>

datatype Event =
    Feed Uint8Array
  | DecodeResolved nat AudioBuffer
  | DecodeRejected nat
  | Clock real
  | Ended

definition settle :: "nat \<Rightarrow> SpeechPlayer \<Rightarrow> SpeechPlayer" where
  "settle k p =
     p\<lparr>audioContext := (audioContext p)\<lparr>decodePending :=
          take k (decodePending (audioContext p)) @ drop (Suc k) (decodePending (audioContext p))\<rparr>\<rparr>"

definition step :: "Event \<Rightarrow> SpeechPlayer \<Rightarrow> SpeechPlayer" where
  "step e p =
     (case e of
        Feed chunk \<Rightarrow> (case feed chunk p of Inl err \<Rightarrow> p | Inr p1 \<Rightarrow> p1)
      | DecodeResolved k audioBuffer \<Rightarrow>
          (if k < length (decodePending (audioContext p))
           then decodeFulfilled audioBuffer (settle k p) else p)
      | DecodeRejected k \<Rightarrow>
          (if k < length (decodePending (audioContext p))
           then (case decodeRejected None (settle k p) of
                   Inl err \<Rightarrow> settle k p
                 | Inr p1 \<Rightarrow> p1)
           else p)
      | Clock t \<Rightarrow> p\<lparr>audioContext := (audioContext p)\<lparr>currentTime := t\<rparr>\<rparr>
      | Ended \<Rightarrow>
          (if ended (audioContext p) < length (started (audioContext p))
           then source_onended
                  (p\<lparr>audioContext := (audioContext p)\<lparr>ended := Suc (ended (audioContext p))\<rparr>\<rparr>)
           else p))"

fun run :: "Event list \<Rightarrow> SpeechPlayer \<Rightarrow> SpeechPlayer" where
  "run [] p = p"
| "run (e # es) p = run es (step e p)"

fun states :: "Event list \<Rightarrow> SpeechPlayer \<Rightarrow> SpeechPlayer list" where
  "states [] p = [p]"
| "states (e # es) p = p # states es (step e p)"

fun fedBytes :: "Event list \<Rightarrow> Uint8Array" where
  "fedBytes [] = []"
| "fedBytes (Feed chunk # es) = chunk @ fedBytes es"
| "fedBytes (e # es) = fedBytes es"

fun succeeds :: "Event \<Rightarrow> bool" where
  "succeeds (DecodeRejected k) = False"
| "succeeds e = True"

fun nonNegative :: "Event \<Rightarrow> bool" where
  "nonNegative (DecodeResolved k audioBuffer) = (0 \<le> duration audioBuffer)"
| "nonNegative e = True"

subsection \<open>Runs of the media-source pipeline\<close>

text \<open>The host opens the media source and then runs the \<open>sourceopen\<close> listener.\<close>

definition sourceopen :: "SpeechPlayer \<Rightarrow> SpeechPlayer" where
  "sourceopen p =
     sourceOpenHandle (p\<lparr>mediaSource := (mediaSource p)\<lparr>readyState := SourceOpen\<rparr>\<rparr>)"

text \<open>
  The audio element stalls: the host runs its \<open>waiting\<close> listeners in the order in
  which they were added, one for every run of the body of \<open>sourceOpenHandle\<close>.
\<close>

definition waiting :: "SpeechPlayer \<Rightarrow> SpeechPlayer" where
  "waiting p = fold audio_waiting [0..<length (timer p)] p"

text \<open>
  The host finishes an append on the current source buffer and runs its \<open>updateend\<close>
  listener: the one of the latest run, which created that buffer.
\<close>

definition updateend :: "SpeechPlayer \<Rightarrow> SpeechPlayer" where
  "updateend p =
     (let p1 = p\<lparr>sourceBuffer := (sourceBuffer p)\<lparr>updating := False\<rparr>\<rparr>
      in if timer p1 = [] then p1 else sourceBuffer_updateend (length (timer p1) - 1) p1)"

subsection \<open>Example instances\<close>

definition allCallbacks :: Options where
  "allCallbacks =
     \<lparr>onPlaying = True, onPause = True, onChunkEnd = True, mimeType = None, audio = None\<rparr>"

definition decodeHost :: Host where
  "decodeHost =
     \<lparr>hasMediaSource = False, isTypeSupported = (\<lambda>m. False), hasAudioContext = True,
      newContextState = Running\<rparr>"

definition mediaHost :: Host where
  "mediaHost =
     \<lparr>hasMediaSource = True, isTypeSupported = (\<lambda>m. m = ''audio/mpeg''),
      hasAudioContext = True, newContextState = Suspended\<rparr>"

definition decodePlayer :: SpeechPlayer where
  "decodePlayer = snd (init decodeHost (constructor (Some allCallbacks)))"

definition mediaPlayer :: SpeechPlayer where
  "mediaPlayer = sourceopen (snd (init mediaHost (constructor (Some allCallbacks))))"

definition revivedPlayer :: SpeechPlayer where
  "revivedPlayer = sourceopen (snd (init mediaHost mediaPlayer))"

definition oneSecond :: AudioBuffer where
  "oneSecond = \<lparr>duration = 1\<rparr>"

section \<open>Properties\<close>

lemma fire_fields [simp]:
  "pendingBuffer (fire c p) = pendingBuffer p"
  "audioContext (fire c p) = audioContext p"
  "nextStartTime (fire c p) = nextStartTime p"
  "useAudioContext (fire c p) = useAudioContext p"
  "destroyed (fire c p) = destroyed p"
  "options (fire c p) = options p"
  "calls (fire c p) = calls p @ [c]"
  by (simp_all add: fire_def)

subsection \<open>The scan\<close>

lemma scanFrom_spec:
  "(scanFrom b i = - 1 \<and> (\<forall>j. int j \<le> i \<longrightarrow> \<not> isSync b j))
   \<or> (\<exists>k. scanFrom b i = int k \<and> int k \<le> i \<and> isSync b k
          \<and> (\<forall>j. k < j \<and> int j \<le> i \<longrightarrow> \<not> isSync b j))"
proof (induction b i rule: scanFrom.induct)
  case (1 b i)
  show ?case
  proof (cases "i \<ge> 0")
    case False
    then show ?thesis by (simp add: scanFrom.simps)
  next
    case nonneg: True
    show ?thesis
    proof (cases "isSync b (nat i)")
      case True
      with nonneg have "scanFrom b i = int (nat i)" by (simp add: scanFrom.simps)
      moreover have "int (nat i) \<le> i" using nonneg by simp
      moreover have "\<forall>j. nat i < j \<and> int j \<le> i \<longrightarrow> \<not> isSync b j" by auto
      ultimately show ?thesis using True by blast
    next
      case False
      with nonneg have eq: "scanFrom b i = scanFrom b (i - 1)" by (simp add: scanFrom.simps)
      have step: "int j \<le> i \<Longrightarrow> \<not> int j \<le> i - 1 \<Longrightarrow> j = nat i" for j by linarith
      from "1.IH" [OF nonneg False] show ?thesis
      proof
        assume a: "scanFrom b (i - 1) = - 1 \<and> (\<forall>j. int j \<le> i - 1 \<longrightarrow> \<not> isSync b j)"
        then have "\<forall>j. int j \<le> i \<longrightarrow> \<not> isSync b j" using False step by metis
        with a eq show ?thesis by simp
      next
        assume "\<exists>k. scanFrom b (i - 1) = int k \<and> int k \<le> i - 1 \<and> isSync b k
          \<and> (\<forall>j. k < j \<and> int j \<le> i - 1 \<longrightarrow> \<not> isSync b j)"
        then obtain k where k: "scanFrom b (i - 1) = int k" "int k \<le> i - 1" "isSync b k"
          "\<forall>j. k < j \<and> int j \<le> i - 1 \<longrightarrow> \<not> isSync b j" by blast
        have "\<forall>j. k < j \<and> int j \<le> i \<longrightarrow> \<not> isSync b j" using k(4) False step by metis
        moreover have "int k \<le> i" using k(2) by simp
        ultimately show ?thesis using k eq by auto
      qed
    qed
  qed
qed

lemma cutIndex_spec:
  "(cutIndex b = - 1 \<and> (\<forall>i. i + 2 \<le> length b \<longrightarrow> \<not> isSync b i))
   \<or> (\<exists>i. cutIndex b = int i \<and> i + 2 \<le> length b \<and> isSync b i
          \<and> (\<forall>j. i < j \<and> j + 2 \<le> length b \<longrightarrow> \<not> isSync b j))"
proof -
  have le: "(int j \<le> int (length b) - 2) = (j + 2 \<le> length b)" for j by linarith
  show ?thesis
    using scanFrom_spec [of b "int (length b) - 2"] unfolding cutIndex_def le .
qed

lemma cutIndex_positive:
  "0 < cutIndex b \<Longrightarrow> \<exists>i. 0 < i \<and> i + 2 \<le> length b \<and> isSync b i"
  using cutIndex_spec [of b] by auto

lemma processAudioContextQueue_idle:
  "cutIndex (pendingBuffer p) \<le> 0 \<Longrightarrow> processAudioContextQueue p = p"
  by (simp add: processAudioContextQueue_def)

lemma processAudioContextQueue_split:
  assumes "0 < cutIndex (pendingBuffer p)"
  shows "pendingBuffer (processAudioContextQueue p)
           = drop (nat (cutIndex (pendingBuffer p))) (pendingBuffer p)"
    and "decodeCalls (audioContext (processAudioContextQueue p))
           = decodeCalls (audioContext p) @ [take (nat (cutIndex (pendingBuffer p))) (pendingBuffer p)]"
    and "decodePending (audioContext (processAudioContextQueue p))
           = decodePending (audioContext p) @ [take (nat (cutIndex (pendingBuffer p))) (pendingBuffer p)]"
proof -
  have ne: "pendingBuffer p \<noteq> []"
    using cutIndex_positive [OF assms] by auto
  show "pendingBuffer (processAudioContextQueue p)
           = drop (nat (cutIndex (pendingBuffer p))) (pendingBuffer p)"
    using assms ne by (simp add: processAudioContextQueue_def Let_def)
  show "decodeCalls (audioContext (processAudioContextQueue p))
           = decodeCalls (audioContext p) @ [take (nat (cutIndex (pendingBuffer p))) (pendingBuffer p)]"
    using assms ne by (simp add: processAudioContextQueue_def Let_def decodeAudioData_def)
  show "decodePending (audioContext (processAudioContextQueue p))
           = decodePending (audioContext p) @ [take (nat (cutIndex (pendingBuffer p))) (pendingBuffer p)]"
    using assms ne by (simp add: processAudioContextQueue_def Let_def decodeAudioData_def)
qed

lemma processAudioContextQueue_keeps [simp]:
  "useAudioContext (processAudioContextQueue p) = useAudioContext p"
  "destroyed (processAudioContextQueue p) = destroyed p"
  "nextStartTime (processAudioContextQueue p) = nextStartTime p"
  "calls (processAudioContextQueue p) = calls p"
  "options (processAudioContextQueue p) = options p"
  by (simp_all add: processAudioContextQueue_def Let_def)

lemma processAudioContextQueue_bytes:
  "concat (decodeCalls (audioContext (processAudioContextQueue p)))
     @ pendingBuffer (processAudioContextQueue p)
   = concat (decodeCalls (audioContext p)) @ pendingBuffer p"
proof (cases "0 < cutIndex (pendingBuffer p)")
  case True
  then show ?thesis by (simp add: processAudioContextQueue_split)
next
  case False
  then show ?thesis by (simp add: processAudioContextQueue_idle)
qed

lemma schedulePlayback_fields [simp]:
  "useAudioContext (schedulePlayback b p) = useAudioContext p"
  "destroyed (schedulePlayback b p) = destroyed p"
  "pendingBuffer (schedulePlayback b p) = pendingBuffer p"
  "calls (schedulePlayback b p) = calls p"
  "options (schedulePlayback b p) = options p"
  "decodeCalls (audioContext (schedulePlayback b p)) = decodeCalls (audioContext p)"
  "decodePending (audioContext (schedulePlayback b p)) = decodePending (audioContext p)"
  "currentTime (audioContext (schedulePlayback b p)) = currentTime (audioContext p)"
  "nextStartTime (schedulePlayback b p)
     = max (nextStartTime p) (currentTime (audioContext p)) + duration b"
  "started (audioContext (schedulePlayback b p))
     = started (audioContext p) @ [(max (nextStartTime p) (currentTime (audioContext p)), b)]"
  by (simp_all add: schedulePlayback_def Let_def max_def)

lemma decodeFulfilled_fields [simp]:
  "useAudioContext (decodeFulfilled b p) = useAudioContext p"
  "destroyed (decodeFulfilled b p) = destroyed p"
  "pendingBuffer (decodeFulfilled b p) = pendingBuffer p"
  "decodeCalls (audioContext (decodeFulfilled b p)) = decodeCalls (audioContext p)"
  "decodePending (audioContext (decodeFulfilled b p)) = decodePending (audioContext p)"
  "nextStartTime (decodeFulfilled b p)
     = max (nextStartTime p) (currentTime (audioContext p)) + duration b"
  by (simp_all add: decodeFulfilled_def Let_def)

lemma decodeRejected_detached [simp]: "decodeRejected None p = Inl TypeError"
  by (simp add: decodeRejected_def)

lemma decodeRejected_attached:
  "decodeRejected (Some d) p = Inr (p\<lparr>pendingBuffer := d @ pendingBuffer p\<rparr>)"
  by (simp add: decodeRejected_def Let_def)

lemma settle_fields [simp]:
  "useAudioContext (settle k p) = useAudioContext p"
  "destroyed (settle k p) = destroyed p"
  "pendingBuffer (settle k p) = pendingBuffer p"
  "decodeCalls (audioContext (settle k p)) = decodeCalls (audioContext p)"
  "currentTime (audioContext (settle k p)) = currentTime (audioContext p)"
  "nextStartTime (settle k p) = nextStartTime p"
  "calls (settle k p) = calls p"
  "options (settle k p) = options p"
  "started (audioContext (settle k p)) = started (audioContext p)"
  "ended (audioContext (settle k p)) = ended (audioContext p)"
  by (simp_all add: settle_def)

lemma source_onended_fields [simp]:
  "useAudioContext (source_onended p) = useAudioContext p"
  "destroyed (source_onended p) = destroyed p"
  "pendingBuffer (source_onended p) = pendingBuffer p"
  "audioContext (source_onended p) = audioContext p"
  "nextStartTime (source_onended p) = nextStartTime p"
  "options (source_onended p) = options p"
  by (simp_all add: source_onended_def)

lemma feed_decode:
  "useAudioContext p \<Longrightarrow> \<not> destroyed p \<Longrightarrow>
   feed chunk p = Inr (processAudioContextQueue (p\<lparr>pendingBuffer := pendingBuffer p @ chunk\<rparr>))"
  by (simp add: feed_def Let_def)

lemma step_mode:
  "useAudioContext p \<Longrightarrow> \<not> destroyed p \<Longrightarrow>
   useAudioContext (step e p) \<and> \<not> destroyed (step e p)"
  by (cases e) (simp_all add: step_def feed_decode)

lemma step_bytes:
  assumes "useAudioContext p" "\<not> destroyed p" "succeeds e"
  shows "concat (decodeCalls (audioContext (step e p))) @ pendingBuffer (step e p)
         = concat (decodeCalls (audioContext p)) @ pendingBuffer p @ fedBytes [e]"
proof (cases e)
  case (Feed chunk)
  then show ?thesis
    using assms by (simp add: step_def feed_decode processAudioContextQueue_bytes)
next
  case (DecodeResolved k b)
  then show ?thesis by (simp add: step_def)
next
  case (DecodeRejected k)
  then show ?thesis using assms by simp
next
  case (Clock t)
  then show ?thesis by (simp add: step_def)
next
  case Ended
  then show ?thesis by (simp add: step_def)
qed

lemma fedBytes_Cons: "fedBytes (e # es) = fedBytes [e] @ fedBytes es"
  by (cases e) simp_all

lemma run_bytes:
  assumes "useAudioContext p" "\<not> destroyed p" "\<forall>e\<in>set es. succeeds e"
  shows "concat (decodeCalls (audioContext (run es p))) @ pendingBuffer (run es p)
         = concat (decodeCalls (audioContext p)) @ pendingBuffer p @ fedBytes es"
  using assms
proof (induction es arbitrary: p)
  case Nil
  then show ?case by simp
next
  case (Cons e es)
  have mode: "useAudioContext (step e p)" "\<not> destroyed (step e p)"
    using step_mode [of p e] Cons.prems by simp_all
  have "concat (decodeCalls (audioContext (run es (step e p)))) @ pendingBuffer (run es (step e p))
        = concat (decodeCalls (audioContext (step e p))) @ pendingBuffer (step e p) @ fedBytes es"
    using Cons.IH [OF mode] Cons.prems by simp
  also have "\<dots> = (concat (decodeCalls (audioContext p)) @ pendingBuffer p @ fedBytes [e]) @ fedBytes es"
    using step_bytes [of p e] Cons.prems by simp
  finally show ?case by (simp add: fedBytes_Cons [of e es])
qed

subsection \<open>Byte conservation\<close>

lemma fedBytes_feeds: "fedBytes (map Feed chunks) = concat chunks"
  by (induction chunks) simp_all

text \<open>
  Claim C1. In the audio-context pipeline, after any sequence of \<open>feed\<close> calls on a
  player that is not destroyed, each with the split it performs, the byte ranges passed
  to \<open>decodeAudioData\<close>, concatenated in call order, followed by the pending buffer are
  the bytes the player started with followed by all bytes fed, in order. The same holds
  when fulfilled decodes, clock readings and ended sources occur between the feeds. When
  the scan finds a positive cut, the pending buffer is already the remainder in the state
  in which the decode of the front part is pending.
\<close>

theorem bytes_conserved:
  assumes "useAudioContext p" and "\<not> destroyed p"
  shows "concat (decodeCalls (audioContext (run (map Feed chunks) p)))
             @ pendingBuffer (run (map Feed chunks) p)
           = concat (decodeCalls (audioContext p)) @ pendingBuffer p @ concat chunks
         \<and> ((\<forall>e\<in>set es. succeeds e) \<longrightarrow>
              concat (decodeCalls (audioContext (run es p))) @ pendingBuffer (run es p)
                = concat (decodeCalls (audioContext p)) @ pendingBuffer p @ fedBytes es)
         \<and> (0 < cutIndex (pendingBuffer q) \<longrightarrow>
              pendingBuffer (processAudioContextQueue q)
                = drop (nat (cutIndex (pendingBuffer q))) (pendingBuffer q)
              \<and> decodePending (audioContext (processAudioContextQueue q))
                = decodePending (audioContext q)
                  @ [take (nat (cutIndex (pendingBuffer q))) (pendingBuffer q)]
              \<and> decodeCalls (audioContext (processAudioContextQueue q))
                = decodeCalls (audioContext q)
                  @ [take (nat (cutIndex (pendingBuffer q))) (pendingBuffer q)])"
proof -
  have feeds: "\<forall>e\<in>set (map Feed chunks). succeeds e" by auto
  have a: "concat (decodeCalls (audioContext (run (map Feed chunks) p)))
             @ pendingBuffer (run (map Feed chunks) p)
           = concat (decodeCalls (audioContext p)) @ pendingBuffer p @ concat chunks"
    using run_bytes [OF assms feeds] by (simp add: fedBytes_feeds)
  have b: "\<forall>e\<in>set es. succeeds e \<Longrightarrow>
           concat (decodeCalls (audioContext (run es p))) @ pendingBuffer (run es p)
             = concat (decodeCalls (audioContext p)) @ pendingBuffer p @ fedBytes es"
    by (rule run_bytes [OF assms])
  show ?thesis using a b processAudioContextQueue_split [of q] by simp
qed

text \<open>
  A fresh player fed two chunks, the first decode fulfilled: \<open>[1]\<close> and
  \<open>[0xFF, 0xE3, 4, 5]\<close> went to the decoder and \<open>[0xFF, 0xFB]\<close> is pending.
\<close>

theorem bytes_conserved_witness:
  "useAudioContext decodePlayer
   \<and> \<not> destroyed decodePlayer
   \<and> list_all succeeds [Feed [1, 0xFF, 0xE3, 4], Feed [5, 0xFF, 0xFB], DecodeResolved 0 oneSecond]
   \<and> decodeCalls (audioContext (run [Feed [1, 0xFF, 0xE3, 4], Feed [5, 0xFF, 0xFB],
         DecodeResolved 0 oneSecond] decodePlayer)) = [[1], [0xFF, 0xE3, 4, 5]]
   \<and> pendingBuffer (run [Feed [1, 0xFF, 0xE3, 4], Feed [5, 0xFF, 0xFB],
         DecodeResolved 0 oneSecond] decodePlayer) = [0xFF, 0xFB]
   \<and> concat (decodeCalls (audioContext (run [Feed [1, 0xFF, 0xE3, 4], Feed [5, 0xFF, 0xFB],
         DecodeResolved 0 oneSecond] decodePlayer)))
       @ pendingBuffer (run [Feed [1, 0xFF, 0xE3, 4], Feed [5, 0xFF, 0xFB],
         DecodeResolved 0 oneSecond] decodePlayer)
       = [1, 0xFF, 0xE3, 4, 5, 0xFF, 0xFB]
   \<and> 0 < cutIndex (pendingBuffer (decodePlayer\<lparr>pendingBuffer := [1, 0xFF, 0xE3, 4]\<rparr>))
   \<and> pendingBuffer (processAudioContextQueue (decodePlayer\<lparr>pendingBuffer := [1, 0xFF, 0xE3, 4]\<rparr>))
       = [0xFF, 0xE3, 4]
   \<and> decodePending (audioContext
         (processAudioContextQueue (decodePlayer\<lparr>pendingBuffer := [1, 0xFF, 0xE3, 4]\<rparr>))) = [[1]]"
proof -
  let ?es = "[Feed [1, 0xFF, 0xE3, 4], Feed [5, 0xFF, 0xFB], DecodeResolved 0 oneSecond]"
  let ?q = "decodePlayer\<lparr>pendingBuffer := [1, 0xFF, 0xE3, 4]\<rparr>"
  have h1: "useAudioContext decodePlayer" by code_simp
  have h2: "\<not> destroyed decodePlayer" by code_simp
  have h3: "\<forall>e\<in>set ?es. succeeds e" by simp
  have h4: "0 < cutIndex (pendingBuffer ?q)" by code_simp
  have v1: "decodeCalls (audioContext (run ?es decodePlayer)) = [[1], [0xFF, 0xE3, 4, 5]]"
    by code_simp
  have v2: "pendingBuffer (run ?es decodePlayer) = [0xFF, 0xFB]" by code_simp
  have v3: "decodeCalls (audioContext decodePlayer) = [] \<and> pendingBuffer decodePlayer = []"
    by code_simp
  have v4: "cutIndex (pendingBuffer ?q) = 1 \<and> decodePending (audioContext ?q) = []" by code_simp
  from bytes_conserved [OF h1 h2, of "[]" ?es ?q] h3 h4
  have "concat (decodeCalls (audioContext (run ?es decodePlayer))) @ pendingBuffer (run ?es decodePlayer)
          = concat (decodeCalls (audioContext decodePlayer)) @ pendingBuffer decodePlayer @ fedBytes ?es"
    and "pendingBuffer (processAudioContextQueue ?q)
          = drop (nat (cutIndex (pendingBuffer ?q))) (pendingBuffer ?q)"
    and "decodePending (audioContext (processAudioContextQueue ?q))
          = decodePending (audioContext ?q) @ [take (nat (cutIndex (pendingBuffer ?q))) (pendingBuffer ?q)]"
    by blast+
  then show ?thesis using h1 h2 h4 v1 v2 v3 v4 by simp
qed

subsection \<open>The frame-boundary scan\<close>

text \<open>
  Claim C2. For every byte buffer \<open>b\<close> the scan returns the largest index \<open>i\<close> with
  \<open>i + 2 \<le> length b\<close>, \<open>b[i] = 0xFF\<close> and \<open>b[i+1] AND 0xE0 = 0xE0\<close>, and \<open>-1\<close> when
  there is none. When no such index exists or the only one is \<open>0\<close>,
  \<open>processAudioContextQueue\<close> leaves the player as it is: the pending buffer is
  unchanged and nothing is passed to the decoder.
\<close>

theorem frame_boundary_scan:
  "((cutIndex b = - 1 \<and> (\<forall>i. i + 2 \<le> length b \<longrightarrow> \<not> isSync b i))
    \<or> (\<exists>i. cutIndex b = int i \<and> i + 2 \<le> length b \<and> isSync b i
           \<and> (\<forall>j. i < j \<and> j + 2 \<le> length b \<longrightarrow> \<not> isSync b j)))
   \<and> ((\<forall>i. i + 2 \<le> length (pendingBuffer p) \<and> isSync (pendingBuffer p) i \<longrightarrow> i = 0)
        \<longrightarrow> processAudioContextQueue p = p)
   \<and> (isSync b i = (b ! i = 255 \<and> (b ! (i + 1)) AND 224 = 224))"
proof -
  have "processAudioContextQueue p = p"
    if only0: "\<forall>i. i + 2 \<le> length (pendingBuffer p) \<and> isSync (pendingBuffer p) i \<longrightarrow> i = 0"
  proof -
    have "cutIndex (pendingBuffer p) \<le> 0"
      using cutIndex_spec [of "pendingBuffer p"] only0 by auto
    then show ?thesis by (rule processAudioContextQueue_idle)
  qed
  then show ?thesis using cutIndex_spec [of b] by (simp add: isSync_def)
qed

text \<open>
  The last of two sync words is chosen; a buffer whose only sync word is at index \<open>0\<close>
  is left alone.
\<close>

theorem frame_boundary_scan_witness:
  "cutIndex [1, 0xFF, 0xE3, 4, 0xFF, 0xFB, 7] = 4
   \<and> isSync [1, 0xFF, 0xE3, 4, 0xFF, 0xFB, 7] 1
   \<and> isSync [1, 0xFF, 0xE3, 4, 0xFF, 0xFB, 7] 4
   \<and> cutIndex [0xFF, 0xE3, 4] = 0
   \<and> cutIndex [1, 2, 0xFF] = - 1
   \<and> processAudioContextQueue (decodePlayer\<lparr>pendingBuffer := [0xFF, 0xE3, 4]\<rparr>)
       = decodePlayer\<lparr>pendingBuffer := [0xFF, 0xE3, 4]\<rparr>"
proof -
  let ?p = "decodePlayer\<lparr>pendingBuffer := [0xFF, 0xE3, 4]\<rparr>"
  have only0: "\<forall>i. i + 2 \<le> length (pendingBuffer ?p) \<and> isSync (pendingBuffer ?p) i \<longrightarrow> i = 0"
  proof (intro allI impI)
    fix i assume a: "i + 2 \<le> length (pendingBuffer ?p) \<and> isSync (pendingBuffer ?p) i"
    then have "i = 0 \<or> i = 1" by auto
    moreover have "\<not> isSync (pendingBuffer ?p) 1" by (simp add: isSync_def)
    ultimately show "i = 0" using a by auto
  qed
  have "processAudioContextQueue ?p = ?p"
    using frame_boundary_scan [of "[]" ?p 0] only0 by blast
  moreover have "cutIndex [1, 0xFF, 0xE3, 4, 0xFF, 0xFB, 7] = 4" by code_simp
  moreover have "isSync [1, 0xFF, 0xE3, 4, 0xFF, 0xFB, 7] 1" by code_simp
  moreover have "isSync [1, 0xFF, 0xE3, 4, 0xFF, 0xFB, 7] 4" by code_simp
  moreover have "cutIndex [0xFF, 0xE3, 4] = 0" by code_simp
  moreover have "cutIndex [1, 2, 0xFF] = - 1" by code_simp
  ultimately show ?thesis by simp
qed

subsection \<open>The play-head\<close>

lemma step_nextStartTime:
  "nonNegative e \<Longrightarrow> nextStartTime p \<le> nextStartTime (step e p)"
proof (cases e)
  case (Feed chunk)
  then show ?thesis by (simp add: step_def feed_def Let_def)
next
  case (DecodeResolved k b)
  assume "nonNegative e"
  with DecodeResolved have "0 \<le> duration b" by simp
  then have "nextStartTime p \<le> max (nextStartTime p) (currentTime (audioContext p)) + duration b"
    by linarith
  with DecodeResolved show ?thesis by (simp add: step_def)
next
  case (DecodeRejected k)
  then show ?thesis by (simp add: step_def)
next
  case (Clock t)
  then show ?thesis by (simp add: step_def)
next
  case Ended
  then show ?thesis by (simp add: step_def)
qed

lemma states_lower_bound:
  "\<forall>e\<in>set es. nonNegative e \<Longrightarrow> \<forall>q\<in>set (states es p). nextStartTime p \<le> nextStartTime q"
proof (induction es arbitrary: p)
  case Nil
  then show ?case by simp
next
  case (Cons e es)
  have first: "nextStartTime p \<le> nextStartTime (step e p)"
    using Cons.prems by (simp add: step_nextStartTime)
  have rest: "\<forall>q\<in>set (states es (step e p)). nextStartTime (step e p) \<le> nextStartTime q"
    using Cons.IH Cons.prems by simp
  show ?case using first rest by fastforce
qed

lemma states_sorted:
  "\<forall>e\<in>set es. nonNegative e \<Longrightarrow> sorted (map nextStartTime (states es p))"
proof (induction es arbitrary: p)
  case Nil
  then show ?case by simp
next
  case (Cons e es)
  have "\<forall>q\<in>set (states es (step e p)). nextStartTime p \<le> nextStartTime q"
    using states_lower_bound [of "e # es" p] Cons.prems by simp
  moreover have "sorted (map nextStartTime (states es (step e p)))"
    using Cons.IH Cons.prems by simp
  ultimately show ?case by simp
qed

text \<open>
  Claim C3. \<open>schedulePlayback\<close> starts a segment of non-negative duration at the later
  of \<open>nextStartTime\<close> and the current time of the audio context, and sets
  \<open>nextStartTime\<close> to that start plus the duration of the segment. Hence along every run
  of the pipeline whose decoded segments have non-negative durations the successive
  values of \<open>nextStartTime\<close> never decrease.
\<close>

theorem play_head_monotone:
  "(0 \<le> duration buffer \<longrightarrow>
      started (audioContext (schedulePlayback buffer p))
        = started (audioContext p)
          @ [(max (nextStartTime p) (currentTime (audioContext p)), buffer)]
      \<and> nextStartTime (schedulePlayback buffer p)
        = max (nextStartTime p) (currentTime (audioContext p)) + duration buffer
      \<and> nextStartTime p \<le> nextStartTime (schedulePlayback buffer p))
   \<and> ((\<forall>e\<in>set es. nonNegative e) \<longrightarrow> sorted (map nextStartTime (states es q)))"
proof -
  have "0 \<le> duration buffer \<Longrightarrow>
        nextStartTime p \<le> max (nextStartTime p) (currentTime (audioContext p)) + duration buffer"
    by linarith
  then show ?thesis using states_sorted [of es q] by simp
qed

text \<open>
  A segment of one second scheduled at clock 3 starts at 3 and moves the play-head to 4;
  along a run with two decoded segments the play-head reads 0, 0, 1, 1, 1, 2.
\<close>

theorem play_head_monotone_witness:
  "0 \<le> duration oneSecond
   \<and> started (audioContext (schedulePlayback oneSecond
        (decodePlayer\<lparr>audioContext := (audioContext decodePlayer)\<lparr>currentTime := 3\<rparr>\<rparr>)))
       = [(3, oneSecond)]
   \<and> nextStartTime (schedulePlayback oneSecond
        (decodePlayer\<lparr>audioContext := (audioContext decodePlayer)\<lparr>currentTime := 3\<rparr>\<rparr>)) = 4
   \<and> list_all nonNegative [Feed [1, 0xFF, 0xE3, 4], DecodeResolved 0 oneSecond, Clock 0.5,
        Feed [5, 0xFF, 0xFB], DecodeResolved 0 oneSecond]
   \<and> map nextStartTime (states [Feed [1, 0xFF, 0xE3, 4], DecodeResolved 0 oneSecond, Clock 0.5,
        Feed [5, 0xFF, 0xFB], DecodeResolved 0 oneSecond] decodePlayer) = [0, 0, 1, 1, 1, 2]
   \<and> sorted (map nextStartTime (states [Feed [1, 0xFF, 0xE3, 4], DecodeResolved 0 oneSecond,
        Clock 0.5, Feed [5, 0xFF, 0xFB], DecodeResolved 0 oneSecond] decodePlayer))"
proof -
  let ?p = "decodePlayer\<lparr>audioContext := (audioContext decodePlayer)\<lparr>currentTime := 3\<rparr>\<rparr>"
  let ?es = "[Feed [1, 0xFF, 0xE3, 4], DecodeResolved 0 oneSecond, Clock 0.5,
        Feed [5, 0xFF, 0xFB], DecodeResolved 0 oneSecond]"
  have h1: "0 \<le> duration oneSecond" by (simp add: oneSecond_def)
  have h2: "\<forall>e\<in>set ?es. nonNegative e" by (simp add: oneSecond_def)
  have v1: "nextStartTime ?p = 0 \<and> currentTime (audioContext ?p) = 3
            \<and> started (audioContext ?p) = []" by code_simp
  have v2: "map nextStartTime (states ?es decodePlayer) = [0, 0, 1, 1, 1, 2]" by code_simp
  from play_head_monotone [of oneSecond ?p ?es decodePlayer] h1 h2
  have "started (audioContext (schedulePlayback oneSecond ?p))
          = started (audioContext ?p) @ [(max (nextStartTime ?p) (currentTime (audioContext ?p)), oneSecond)]"
    and "nextStartTime (schedulePlayback oneSecond ?p)
          = max (nextStartTime ?p) (currentTime (audioContext ?p)) + duration oneSecond"
    and "sorted (map nextStartTime (states ?es decodePlayer))"
    by blast+
  then show ?thesis using h1 h2 v1 v2 by (simp add: oneSecond_def)
qed

subsection \<open>The first segment\<close>

text \<open>
  \<open>decodeFulfilled\<close> tests \<open>nextStartTime\<close> after \<open>schedulePlayback\<close> has moved it, so
  a segment of positive duration never calls \<open>onPlaying\<close> while the clock is not
  negative.
\<close>

lemma decodeFulfilled_silent:
  assumes "0 \<le> currentTime (audioContext p)" and "0 < duration b"
  shows "calls (decodeFulfilled b p) = calls p"
proof -
  have "0 < max (nextStartTime p) (currentTime (audioContext p)) + duration b"
    using assms by linarith
  then show ?thesis by (simp add: decodeFulfilled_def Let_def)
qed

text \<open>
  Claim C4 says that \<open>onPlaying\<close> is called when the first decoded segment is scheduled
  while the play-head is still at its initial value 0. On a fresh player with the
  callback supplied, the first chunk fed and its decode fulfilled with a segment of one
  second, the segment is started at 0 and no callback has been called.
\<close>

theorem first_segment_silent:
  "onPlaying (options decodePlayer)
   \<and> nextStartTime decodePlayer = 0
   \<and> started (audioContext decodePlayer) = []
   \<and> decodePending (audioContext (run [Feed [1, 0xFF, 0xE3, 4]] decodePlayer)) = [[1]]
   \<and> started (audioContext (run [Feed [1, 0xFF, 0xE3, 4], DecodeResolved 0 oneSecond] decodePlayer))
       = [(0, oneSecond)]
   \<and> calls (run [Feed [1, 0xFF, 0xE3, 4], DecodeResolved 0 oneSecond] decodePlayer) = []"
  by code_simp

subsection \<open>Play and pause without a transition\<close>

text \<open>
  Claim C5, as amended. \<open>play\<close> on a player that is already playing resolves
  \<open>false\<close> in the media-source pipeline and \<open>true\<close> in the audio-context pipeline;
  \<open>pause\<close> on a player that is already paused resolves \<open>false\<close> in both pipelines.
  In each of these cases the player is left as it was.
\<close>

theorem play_pause_settled:
  "(playing p \<and> \<not> useAudioContext p \<longrightarrow> play p = (Resolved False, p))
   \<and> (playing p \<and> useAudioContext p \<longrightarrow> play p = (Resolved True, p))
   \<and> (paused p \<longrightarrow> pause p = (Resolved False, p))"
  by (auto simp add: play_def pause_def playing_def paused_def split: option.splits)

text \<open>
  A playing media-source player, a running and a suspended audio-context player, and a
  media-source player whose element is paused.
\<close>

theorem play_pause_settled_witness:
  "playing (snd (play mediaPlayer)) \<and> \<not> useAudioContext (snd (play mediaPlayer))
   \<and> play (snd (play mediaPlayer)) = (Resolved False, snd (play mediaPlayer))
   \<and> playing decodePlayer \<and> useAudioContext decodePlayer
   \<and> play decodePlayer = (Resolved True, decodePlayer)
   \<and> paused mediaPlayer \<and> pause mediaPlayer = (Resolved False, mediaPlayer)
   \<and> paused (decodePlayer\<lparr>audioContext := (audioContext decodePlayer)\<lparr>state := Suspended\<rparr>\<rparr>)
   \<and> pause (decodePlayer\<lparr>audioContext := (audioContext decodePlayer)\<lparr>state := Suspended\<rparr>\<rparr>)
       = (Resolved False, decodePlayer\<lparr>audioContext := (audioContext decodePlayer)\<lparr>state := Suspended\<rparr>\<rparr>)"
proof -
  let ?m = "snd (play mediaPlayer)"
  let ?s = "decodePlayer\<lparr>audioContext := (audioContext decodePlayer)\<lparr>state := Suspended\<rparr>\<rparr>"
  have h1: "playing ?m \<and> \<not> useAudioContext ?m" by code_simp
  have h2: "playing decodePlayer \<and> useAudioContext decodePlayer" by code_simp
  have h3: "paused mediaPlayer" by code_simp
  have h4: "paused ?s" by code_simp
  show ?thesis
    using play_pause_settled [of ?m] play_pause_settled [of decodePlayer]
      play_pause_settled [of mediaPlayer] play_pause_settled [of ?s] h1 h2 h3 h4
    by blast
qed

text \<open>
  Claim C5 as stated fails: an audio-context player whose context is running is playing,
  and \<open>play\<close> resolves \<open>true\<close>, not \<open>false\<close>.
\<close>

theorem play_while_playing_counterexample:
  "useAudioContext decodePlayer \<and> playing decodePlayer
   \<and> fst (play decodePlayer) = Resolved True
   \<and> fst (play decodePlayer) \<noteq> Resolved False"
  by code_simp

subsection \<open>A failed decode\<close>

text \<open>
  With the bytes still readable the \<open>catch\<close> block would put the decode range back in
  front of the pending buffer. In a run the range is detached, so a rejected decode only
  leaves the list of pending decodes: the pending buffer stays the remainder.
\<close>

lemma step_DecodeRejected:
  "step (DecodeRejected k) p
     = (if k < length (decodePending (audioContext p)) then settle k p else p)"
  by (simp add: step_def)

lemma rejected_keeps_remainder:
  "pendingBuffer (step (DecodeRejected k) p) = pendingBuffer p
   \<and> calls (step (DecodeRejected k) p) = calls p
   \<and> nextStartTime (step (DecodeRejected k) p) = nextStartTime p"
  by (simp add: step_DecodeRejected)

text \<open>
  Claim C6 says that after a failed decode the attempted range is back in front of the
  pending buffer, so that the buffered bytes are those before the split, that no
  callback is called and that no error reaches the caller of \<open>feed\<close>. On a fresh player
  fed \<open>[1, 0xFF, 0xE3, 4]\<close>, \<open>feed\<close> returns, \<open>[1]\<close> is passed to the decoder and
  \<open>[0xFF, 0xE3, 4]\<close> stays pending. When that decode is rejected the \<open>catch\<close> block
  throws a \<open>TypeError\<close>, no callback is called, and the pending buffer is still
  \<open>[0xFF, 0xE3, 4]\<close>: the byte \<open>1\<close> is in no buffer any more.
\<close>

theorem decode_failure_loses_range:
  "pendingBuffer decodePlayer = []
   \<and> feed [1, 0xFF, 0xE3, 4] decodePlayer = Inr (run [Feed [1, 0xFF, 0xE3, 4]] decodePlayer)
   \<and> decodeCalls (audioContext (run [Feed [1, 0xFF, 0xE3, 4]] decodePlayer)) = [[1]]
   \<and> decodePending (audioContext (run [Feed [1, 0xFF, 0xE3, 4]] decodePlayer)) = [[1]]
   \<and> pendingBuffer (run [Feed [1, 0xFF, 0xE3, 4]] decodePlayer) = [0xFF, 0xE3, 4]
   \<and> decodeRejected None (settle 0 (run [Feed [1, 0xFF, 0xE3, 4]] decodePlayer)) = Inl TypeError
   \<and> pendingBuffer (run [Feed [1, 0xFF, 0xE3, 4], DecodeRejected 0] decodePlayer)
       = [0xFF, 0xE3, 4]
   \<and> decodePending (audioContext (run [Feed [1, 0xFF, 0xE3, 4], DecodeRejected 0] decodePlayer))
       = []
   \<and> calls (run [Feed [1, 0xFF, 0xE3, 4], DecodeRejected 0] decodePlayer) = []"
  by code_simp

subsection \<open>When feed throws\<close>

text \<open>
  Claim C7. \<open>feed\<close> throws exactly when the player is destroyed (tested first, in either
  pipeline; a \<open>ReferenceError\<close>) or it is in the media-source pipeline and the media
  source has not been opened (an \<open>Error\<close>). In the audio-context pipeline, on a player
  that is not destroyed, \<open>feed\<close> never throws.
\<close>

theorem feed_throws:
  "isl (feed chunk p) = (destroyed p \<or> (\<not> useAudioContext p \<and> \<not> mediaSourceOpened p))
   \<and> (destroyed p \<longrightarrow> feed chunk p = Inl ReferenceError)
   \<and> (\<not> destroyed p \<and> \<not> useAudioContext p \<and> \<not> mediaSourceOpened p
        \<longrightarrow> feed chunk p = Inl Error)
   \<and> (\<not> destroyed p \<and> useAudioContext p \<longrightarrow> \<not> isl (feed chunk p))"
  by (simp add: feed_def Let_def)

text \<open>
  Destroyed players of both pipelines, a player that was never initialised, and
  initialised players of both pipelines.
\<close>

theorem feed_throws_witness:
  "destroyed (decodePlayer\<lparr>destroyed := True\<rparr>)
   \<and> feed [1, 2] (decodePlayer\<lparr>destroyed := True\<rparr>) = Inl ReferenceError
   \<and> destroyed (mediaPlayer\<lparr>destroyed := True\<rparr>)
   \<and> feed [1, 2] (mediaPlayer\<lparr>destroyed := True\<rparr>) = Inl ReferenceError
   \<and> \<not> destroyed (constructor (Some allCallbacks))
   \<and> \<not> useAudioContext (constructor (Some allCallbacks))
   \<and> \<not> mediaSourceOpened (constructor (Some allCallbacks))
   \<and> feed [1, 2] (constructor (Some allCallbacks)) = Inl Error
   \<and> \<not> destroyed decodePlayer \<and> useAudioContext decodePlayer
   \<and> \<not> isl (feed [1, 2] decodePlayer)
   \<and> \<not> isl (feed [1, 2] mediaPlayer)"
proof -
  let ?d = "decodePlayer\<lparr>destroyed := True\<rparr>"
  let ?m = "mediaPlayer\<lparr>destroyed := True\<rparr>"
  let ?c = "constructor (Some allCallbacks)"
  have h3: "\<not> destroyed ?c \<and> \<not> useAudioContext ?c \<and> \<not> mediaSourceOpened ?c" by code_simp
  have h4: "\<not> destroyed decodePlayer \<and> useAudioContext decodePlayer" by code_simp
  have h5: "\<not> destroyed mediaPlayer \<and> mediaSourceOpened mediaPlayer" by code_simp
  have a: "feed [1, 2] ?d = Inl ReferenceError"
    using feed_throws [of "[1, 2]" ?d] by simp
  have b: "feed [1, 2] ?m = Inl ReferenceError"
    using feed_throws [of "[1, 2]" ?m] by simp
  have c: "feed [1, 2] ?c = Inl Error"
    using feed_throws [of "[1, 2]" ?c] h3 by simp
  have d: "\<not> isl (feed [1, 2] decodePlayer)"
    using feed_throws [of "[1, 2]" decodePlayer] h4 by simp
  have e: "\<not> isl (feed [1, 2] mediaPlayer)"
    using feed_throws [of "[1, 2]" mediaPlayer] h5 by simp
  show ?thesis using a b c d e h3 h4 by simp
qed

subsection \<open>The end of the stream in the audio-context pipeline\<close>

text \<open>
  The \<open>onended\<close> listener calls \<open>onChunkEnd\<close>, once, exactly when the pending buffer is
  empty and \<open>nextStartTime\<close> is within 0.1 seconds of the current time of the audio
  context (and the callback was supplied); it changes nothing else.
\<close>

lemma source_onended_calls:
  "calls (source_onended p)
     = calls p @ (if onChunkEnd (options p) \<and> pendingBuffer p = []
                     \<and> \<bar>nextStartTime p - currentTime (audioContext p)\<bar> < 0.1
                  then [OnChunkEnd] else [])"
  by (simp add: source_onended_def)

text \<open>
  After a split the remainder starts at a sync word that is followed by at least one
  more byte, so the pending buffer then holds at least two bytes.
\<close>

lemma split_remainder:
  assumes "0 < cutIndex b"
  shows "2 \<le> length (drop (nat (cutIndex b)) b)"
proof -
  obtain i where "cutIndex b = int i" "i + 2 \<le> length b"
    using cutIndex_spec [of b] assms by auto
  then show ?thesis by simp
qed

text \<open>
  Hence along a run: as long as nothing has been sent to the decoder, no source has been
  started; afterwards the pending buffer holds at least two bytes for good. A source
  that ends therefore never finds the pending buffer empty.
\<close>

lemma step_pending:
  assumes mode: "useAudioContext p" "\<not> destroyed p"
    and inv: "(started (audioContext p) = [] \<and> decodePending (audioContext p) = [])
              \<or> 2 \<le> length (pendingBuffer p)"
  shows "((started (audioContext (step e p)) = [] \<and> decodePending (audioContext (step e p)) = [])
          \<or> 2 \<le> length (pendingBuffer (step e p)))
         \<and> count_list (calls (step e p)) OnChunkEnd = count_list (calls p) OnChunkEnd"
proof (cases e)
  case (Feed chunk)
  let ?p1 = "p\<lparr>pendingBuffer := pendingBuffer p @ chunk\<rparr>"
  have s: "step e p = processAudioContextQueue ?p1"
    using Feed mode by (simp add: step_def feed_decode)
  show ?thesis
  proof (cases "0 < cutIndex (pendingBuffer ?p1)")
    case True
    have "pendingBuffer (processAudioContextQueue ?p1)
            = drop (nat (cutIndex (pendingBuffer ?p1))) (pendingBuffer ?p1)"
      by (rule processAudioContextQueue_split(1) [OF True])
    moreover have "2 \<le> length (drop (nat (cutIndex (pendingBuffer ?p1))) (pendingBuffer ?p1))"
      by (rule split_remainder [OF True])
    ultimately have "2 \<le> length (pendingBuffer (processAudioContextQueue ?p1))"
      by (simp only:)
    then show ?thesis unfolding s by simp
  next
    case False
    then have "processAudioContextQueue ?p1 = ?p1"
      by (simp add: processAudioContextQueue_idle)
    then show ?thesis unfolding s using inv by auto
  qed
next
  case (DecodeResolved k b)
  show ?thesis
  proof (cases "k < length (decodePending (audioContext p))")
    case True
    then have two: "2 \<le> length (pendingBuffer p)" using inv by auto
    have "calls (decodeFulfilled b (settle k p)) = calls p
          \<or> calls (decodeFulfilled b (settle k p)) = calls p @ [OnPlaying]"
      by (simp add: decodeFulfilled_def Let_def)
    then have "count_list (calls (decodeFulfilled b (settle k p))) OnChunkEnd
               = count_list (calls p) OnChunkEnd"
      by auto
    then show ?thesis using DecodeResolved True two by (simp add: step_def)
  next
    case False
    then show ?thesis using DecodeResolved inv by (simp add: step_def)
  qed
next
  case (DecodeRejected k)
  show ?thesis
  proof (cases "k < length (decodePending (audioContext p))")
    case True
    then have "2 \<le> length (pendingBuffer p)" using inv by auto
    then show ?thesis using DecodeRejected True by (simp add: step_DecodeRejected)
  next
    case False
    then show ?thesis using DecodeRejected inv by (simp add: step_DecodeRejected)
  qed
next
  case (Clock t)
  then show ?thesis using inv by (simp add: step_def)
next
  case Ended
  show ?thesis
  proof (cases "ended (audioContext p) < length (started (audioContext p))")
    case True
    then have "2 \<le> length (pendingBuffer p)" using inv by auto
    then have "pendingBuffer p \<noteq> []" by auto
    then show ?thesis
      using Ended True \<open>2 \<le> length (pendingBuffer p)\<close>
      by (simp add: step_def source_onended_calls)
  next
    case False
    then show ?thesis using Ended inv by (simp add: step_def)
  qed
qed

lemma run_never_signals_end:
  assumes "useAudioContext p" and "\<not> destroyed p"
    and "(started (audioContext p) = [] \<and> decodePending (audioContext p) = [])
         \<or> 2 \<le> length (pendingBuffer p)"
  shows "count_list (calls (run es p)) OnChunkEnd = count_list (calls p) OnChunkEnd"
  using assms
proof (induction es arbitrary: p)
  case Nil
  then show ?case by simp
next
  case (Cons e es)
  have mode: "useAudioContext (step e p)" "\<not> destroyed (step e p)"
    using step_mode [of p e] Cons.prems by simp_all
  have next_state: "((started (audioContext (step e p)) = []
                       \<and> decodePending (audioContext (step e p)) = [])
                     \<or> 2 \<le> length (pendingBuffer (step e p)))
                    \<and> count_list (calls (step e p)) OnChunkEnd = count_list (calls p) OnChunkEnd"
    using step_pending [OF Cons.prems] .
  have "count_list (calls (run es (step e p))) OnChunkEnd
        = count_list (calls (step e p)) OnChunkEnd"
    using Cons.IH [OF mode] next_state by blast
  then show ?case using next_state by simp
qed


subsection \<open>The stall timer of the media-source pipeline\<close>

text \<open>
  When a pending stall timer runs, the media source is ended and \<open>onChunkEnd\<close> is called
  exactly when the source buffer is not updating, the media source is open and the chunk
  queue is empty.
\<close>

lemma timeout_fires_check:
  assumes "find (\<lambda>t. fst t = ident) (timeouts p) = Some (ident, ms, EndOfStreamCheck)"
  shows "timeout_fires ident p = waiting_timeout (clearTimeout ident p)"
  using assms by (simp add: timeout_fires_def)

lemma timeout_fires_effect:
  assumes "find (\<lambda>t. fst t = ident) (timeouts p) = Some (ident, ms, EndOfStreamCheck)"
  shows "if \<not> updating (sourceBuffer p) \<and> readyState (mediaSource p) = SourceOpen
            \<and> sourceBufferCache p = []
         then readyState (mediaSource (timeout_fires ident p)) = SourceEnded
              \<and> calls (timeout_fires ident p)
                  = calls p @ (if onChunkEnd (options p) then [OnChunkEnd] else [])
         else mediaSource (timeout_fires ident p) = mediaSource p
              \<and> calls (timeout_fires ident p) = calls p"
  unfolding timeout_fires_check [OF assms]
  by (simp add: waiting_timeout_def clearTimeout_def fire_def Let_def)

text \<open>
  On a player whose \<open>sourceOpenHandle\<close> has run once, a single stall followed by an
  \<open>updateend\<close> leaves no timer of that stall pending.
\<close>

lemma single_stall_cleared:
  assumes "length (timer p) = 1"
  shows "timeouts (updateend (waiting p)) = filter (\<lambda>t. fst t \<noteq> Suc (timerCount p)) (timeouts p)"
proof -
  obtain t where t: "timer p = [t]"
    using assms by (cases "timer p") auto
  have w: "timer (waiting p) = [Suc (timerCount p)]"
    "timeouts (waiting p) = timeouts p @ [(Suc (timerCount p), 500, EndOfStreamCheck)]"
    by (simp_all add: waiting_def t audio_waiting_def setTimeout_def Let_def)
  show ?thesis
    by (simp add: updateend_def sourceBuffer_updateend_def clearTimeout_def Let_def w
        split: option.splits)
qed

text \<open>
  Claim C9 says that a stall arms a timer of 500 ms, that the timer, when it runs, ends
  the stream and calls \<open>onChunkEnd\<close> exactly when the source buffer is idle, the media
  source open and the queue empty, and that an \<open>updateend\<close> before the timer runs
  cancels it. On an opened player two stalls arm the timers 1 and 2; the variable
  \<open>timer\<close> holds 2, so the following \<open>updateend\<close> clears timer 2 only, and timer 1 then
  runs, ends the stream and calls \<open>onChunkEnd\<close>. On a player initialised a second time,
  the audio element carries the \<open>waiting\<close> listeners of both runs of
  \<open>sourceOpenHandle\<close>: one stall arms the timers 1 and 2, the \<open>updateend\<close> listener of
  the current source buffer clears timer 2, and timer 1 runs as before.
\<close>

theorem stall_timer_survives_updateend:
  "timer mediaPlayer = [0]
   \<and> timeouts (waiting (waiting mediaPlayer))
       = [(1, 500, EndOfStreamCheck), (2, 500, EndOfStreamCheck)]
   \<and> timer (waiting (waiting mediaPlayer)) = [2]
   \<and> timeouts (updateend (waiting (waiting mediaPlayer))) = [(1, 500, EndOfStreamCheck)]
   \<and> readyState (mediaSource (timeout_fires 1 (updateend (waiting (waiting mediaPlayer)))))
       = SourceEnded
   \<and> calls (timeout_fires 1 (updateend (waiting (waiting mediaPlayer)))) = [OnChunkEnd]
   \<and> timer revivedPlayer = [0, 0]
   \<and> timeouts (waiting revivedPlayer)
       = [(1, 500, EndOfStreamCheck), (2, 500, EndOfStreamCheck)]
   \<and> timer (waiting revivedPlayer) = [1, 2]
   \<and> timeouts (updateend (waiting revivedPlayer)) = [(1, 500, EndOfStreamCheck)]
   \<and> readyState (mediaSource (timeout_fires 1 (updateend (waiting revivedPlayer))))
       = SourceEnded
   \<and> calls (timeout_fires 1 (updateend (waiting revivedPlayer))) = [OnChunkEnd]"
  by code_simp

subsection \<open>Initialising a destroyed player\<close>

text \<open>
  Claim C10. On a destroyed player \<open>init\<close> sets \<open>destroyed\<close> back to false, so a
  following \<open>feed\<close> does not throw the \<open>ReferenceError\<close> of a destroyed player. When
  \<open>init\<close> completes in the audio-context pipeline it also resets \<open>nextStartTime\<close> to 0
  and the pending buffer to the empty sequence, and the following \<open>feed\<close> does not
  throw at all.
\<close>

theorem init_revives:
  assumes "destroyed p"
  shows "\<not> destroyed (snd (init host p))
         \<and> feed chunk (snd (init host p)) \<noteq> Inl ReferenceError
         \<and> useAudioContext (snd (init host p))
             = (\<not> (hasMediaSource host
                   \<and> isTypeSupported host
                        (case mimeType (options p) of None \<Rightarrow> ''audio/mpeg'' | Some m \<Rightarrow> m)))
         \<and> (fst (init host p) = Resolved ())
             = (useAudioContext (snd (init host p)) \<and> hasAudioContext host)
         \<and> (fst (init host p) = Resolved () \<longrightarrow>
               nextStartTime (snd (init host p)) = 0
               \<and> pendingBuffer (snd (init host p)) = [])
         \<and> (useAudioContext (snd (init host p)) \<longrightarrow> \<not> isl (feed chunk (snd (init host p))))"
proof -
  let ?probe = "hasMediaSource host
                   \<and> isTypeSupported host
                        (case mimeType (options p) of None \<Rightarrow> ''audio/mpeg'' | Some m \<Rightarrow> m)"
  have d: "\<not> destroyed (snd (init host p))"
    by (simp add: init_def Let_def split: option.splits)
  have u: "useAudioContext (snd (init host p)) = (\<not> ?probe)"
    by (simp add: init_def Let_def split: option.splits)
  have s: "(fst (init host p) = Resolved ()) = (\<not> ?probe \<and> hasAudioContext host)"
    by (simp add: init_def Let_def split: option.splits)
  have r: "nextStartTime (snd (init host p)) = 0 \<and> pendingBuffer (snd (init host p)) = []"
    if m: "fst (init host p) = Resolved ()"
  proof -
    have "\<not> ?probe \<and> hasAudioContext host" using m s by simp
    then show ?thesis by (auto simp add: init_def Let_def)
  qed
  have f: "feed chunk (snd (init host p)) \<noteq> Inl ReferenceError"
    using d by (simp add: feed_def Let_def)
  have g: "useAudioContext (snd (init host p)) \<Longrightarrow> \<not> isl (feed chunk (snd (init host p)))"
    using d by (simp add: feed_def Let_def)
  show ?thesis using d u s r f g by blast
qed

text \<open>
  A destroyed audio-context player with a play-head at 1 and bytes pending, and a
  destroyed media-source player, each initialised again on its host.
\<close>

theorem init_revives_witness:
  "destroyed ((run [Feed [1, 0xFF, 0xE3, 4], DecodeResolved 0 oneSecond] decodePlayer)
      \<lparr>destroyed := True\<rparr>)
   \<and> feed [5, 6] ((run [Feed [1, 0xFF, 0xE3, 4], DecodeResolved 0 oneSecond] decodePlayer)
      \<lparr>destroyed := True\<rparr>) = Inl ReferenceError
   \<and> nextStartTime ((run [Feed [1, 0xFF, 0xE3, 4], DecodeResolved 0 oneSecond] decodePlayer)
      \<lparr>destroyed := True\<rparr>) = 1
   \<and> fst (init decodeHost
        ((run [Feed [1, 0xFF, 0xE3, 4], DecodeResolved 0 oneSecond] decodePlayer)
          \<lparr>destroyed := True\<rparr>)) = Resolved ()
   \<and> \<not> destroyed (snd (init decodeHost
        ((run [Feed [1, 0xFF, 0xE3, 4], DecodeResolved 0 oneSecond] decodePlayer)
          \<lparr>destroyed := True\<rparr>)))
   \<and> useAudioContext (snd (init decodeHost
        ((run [Feed [1, 0xFF, 0xE3, 4], DecodeResolved 0 oneSecond] decodePlayer)
          \<lparr>destroyed := True\<rparr>)))
   \<and> nextStartTime (snd (init decodeHost
        ((run [Feed [1, 0xFF, 0xE3, 4], DecodeResolved 0 oneSecond] decodePlayer)
          \<lparr>destroyed := True\<rparr>))) = 0
   \<and> pendingBuffer (snd (init decodeHost
        ((run [Feed [1, 0xFF, 0xE3, 4], DecodeResolved 0 oneSecond] decodePlayer)
          \<lparr>destroyed := True\<rparr>))) = []
   \<and> \<not> isl (feed [5, 6] (snd (init decodeHost
        ((run [Feed [1, 0xFF, 0xE3, 4], DecodeResolved 0 oneSecond] decodePlayer)
          \<lparr>destroyed := True\<rparr>))))
   \<and> destroyed (mediaPlayer\<lparr>destroyed := True, mediaSourceOpened := False\<rparr>)
   \<and> \<not> destroyed (snd (init mediaHost
        (mediaPlayer\<lparr>destroyed := True, mediaSourceOpened := False\<rparr>)))
   \<and> feed [5, 6] (snd (init mediaHost
        (mediaPlayer\<lparr>destroyed := True, mediaSourceOpened := False\<rparr>))) = Inl Error"
proof -
  let ?d = "(run [Feed [1, 0xFF, 0xE3, 4], DecodeResolved 0 oneSecond] decodePlayer)
      \<lparr>destroyed := True\<rparr>"
  let ?m = "mediaPlayer\<lparr>destroyed := True, mediaSourceOpened := False\<rparr>"
  have h1: "destroyed ?d" by simp
  have h2: "destroyed ?m" by simp
  have v1: "feed [5, 6] ?d = Inl ReferenceError \<and> nextStartTime ?d = 1" by code_simp
  have v2: "fst (init decodeHost ?d) = Resolved ()" by code_simp
  have v3: "feed [5, 6] (snd (init mediaHost ?m)) = Inl Error" by code_simp
  have a: "\<not> destroyed (snd (init decodeHost ?d)) \<and> useAudioContext (snd (init decodeHost ?d))
           \<and> nextStartTime (snd (init decodeHost ?d)) = 0
           \<and> pendingBuffer (snd (init decodeHost ?d)) = []
           \<and> \<not> isl (feed [5, 6] (snd (init decodeHost ?d)))"
    using init_revives [OF h1, of decodeHost "[5, 6]"] v2 by blast
  have b: "\<not> destroyed (snd (init mediaHost ?m))"
    using init_revives [OF h2, of mediaHost "[5, 6]"] by blast
  show ?thesis using h1 h2 v1 v2 v3 a b by simp
qed

end
